theory Spec2Isabelle
  imports Complex_Main
begin

section \<open>The batch collator of train_classification.py\<close>

text \<open>
  The file under study is a training script. Its own logic is the class
  \<open>ClassificationBatchFunction\<close> (the collate function handed to the data loader) and
  the control flow of \<open>train\<close>. Token ids, labels, lengths and counters are Python
  integers, modelled as \<open>int\<close>; Python lists are HOL lists; an exception is a value of
  the type \<open>error\<close>.
\<close>

datatype error =
    UnpackError          \<comment> \<open>ValueError of \<open>tokens, label = list(zip(*batch))\<close> on an empty batch\<close>
  | TensorError          \<comment> \<open>torch refuses the data: ragged rows or a value outside int64\<close>
  | NameError string     \<comment> \<open>UnboundLocalError: a local variable read before assignment\<close>
  | ZeroDivisionError

record collator =
  max_len :: int
  pad_idx :: int
  cls_idx :: int
  sep_idx :: int

text \<open>\<open>__init__\<close>: the two boundary ids default to the pad id.\<close>

definition ClassificationBatchFunction ::
  "int \<Rightarrow> int \<Rightarrow> int option \<Rightarrow> int option \<Rightarrow> collator" where
  "ClassificationBatchFunction ml p c s =
     \<lparr>max_len = ml, pad_idx = p,
      cls_idx = (case c of None \<Rightarrow> p | Some x \<Rightarrow> x),
      sep_idx = (case s of None \<Rightarrow> p | Some x \<Rightarrow> x)\<rparr>"

text \<open>
  Python's \<open>xs[i:]\<close>: a negative start counts from the end and is clipped at the
  beginning of the list; a start beyond the end gives the empty list.
\<close>

definition slice_from :: "int \<Rightarrow> 'a list \<Rightarrow> 'a list" where
  "slice_from i xs =
     (if i < 0 then drop (nat (int (length xs) + i)) xs else drop (nat i) xs)"

text \<open>
  \<open>pad\<close> (lines 50-56) works with \<open>self.max_len\<close>, the configured length:
  \<^verbatim>\<open>
    diff = self.max_len - len(sample)
    if diff > 0: sample += [self.pad_idx] * diff
    else:        sample = sample[-self.max_len:]
  \<close>
\<close>

definition pad :: "collator \<Rightarrow> int list \<Rightarrow> int list" where
  "pad c sample =
     (let diff = max_len c - int (length sample)
      in if diff > 0 then sample @ replicate (nat diff) (pad_idx c)
         else slice_from (- max_len c) sample)"

text \<open>
  \<open>torch.tensor\<close> on a list of rows accepts it when all rows have the length of the
  first one and every entry fits the 64-bit integer type; a scalar handed to a tensor
  operation has to fit as well.
\<close>

definition int64 :: "int \<Rightarrow> bool" where
  "int64 x = (- (2 ^ 63) \<le> x \<and> x < 2 ^ 63)"

definition tensor1 :: "int list \<Rightarrow> error + int list" where
  "tensor1 xs = (if list_all int64 xs then Inr xs else Inl TensorError)"

definition tensor2 :: "int list list \<Rightarrow> error + int list list" where
  "tensor2 rows =
     (case rows of
        [] \<Rightarrow> Inr []
      | r # rs \<Rightarrow>
          if list_all (\<lambda>q. length q = length r) rs \<and> list_all (list_all int64) rows
          then Inr rows else Inl TensorError)"

definition ones_like :: "int list list \<Rightarrow> int list list" where
  "ones_like t = map (map (\<lambda>_. 1)) t"

definition eq_scalar :: "int list list \<Rightarrow> int \<Rightarrow> bool list list" where
  "eq_scalar t v = map (map (\<lambda>x. x = v)) t"

definition masked_fill :: "int list list \<Rightarrow> bool list list \<Rightarrow> int \<Rightarrow> int list list" where
  "masked_fill t m v = map2 (\<lambda>row mrow. map2 (\<lambda>x b. if b then v else x) row mrow) t m"

text \<open>
  Line 42 of \<open>__call__\<close> computes a local \<open>max_len\<close>, the smaller of the configured
  length and the longest raw sequence of the batch (\<open>max\<close> of a non-empty list).
\<close>

definition batch_max_len :: "collator \<Rightarrow> int list list \<Rightarrow> int" where
  "batch_max_len c tokens =
     (case tokens of
        [] \<Rightarrow> max_len c
      | t # ts \<Rightarrow> min (max_len c) (fold max (map (\<lambda>i. int (length i)) ts) (int (length t))))"

text \<open>
  Lines 43-48 of \<open>__call__\<close>, from the padded rows on: the token tensor, the mask
  (ones, filled with the pad id where the token equals the pad id) and the label tensor.
\<close>

definition to_tensors ::
  "collator \<Rightarrow> int list list \<Rightarrow> int list \<Rightarrow>
     error + (int list list \<times> int list list \<times> int list)" where
  "to_tensors c rows label =
     (case tensor2 rows of
        Inl e \<Rightarrow> Inl e
      | Inr tokens \<Rightarrow>
          (if \<not> int64 (pad_idx c) then Inl TensorError
           else
             (let masks = masked_fill (ones_like tokens)
                            (eq_scalar tokens (pad_idx c)) (pad_idx c)
              in (case tensor1 label of
                    Inl e \<Rightarrow> Inl e
                  | Inr label' \<Rightarrow> Inr (tokens, masks, label')))))"

text \<open>
  \<open>__call__\<close> (lines 38-48) on the values of the batch. The local of line 42 is bound
  and then not read again: the rows are produced by \<open>self.pad\<close>, which reads
  \<open>self.max_len\<close>.
\<close>

definition call ::
  "collator \<Rightarrow> (int list \<times> int) list \<Rightarrow>
     error + (int list list \<times> int list list \<times> int list)" where
  "call c batch =
     (if batch = [] then Inl UnpackError
      else
        (let tokens = map fst batch;
             label = map snd batch;
             max_len' = batch_max_len c tokens
         in to_tensors c (map (\<lambda>t. pad c ([cls_idx c] @ t @ [sep_idx c])) tokens) label))"

subsection \<open>The collator on a store of list objects\<close>

text \<open>
  Python lists are objects, and \<open>sample += ...\<close> in \<open>pad\<close> extends the object it is
  given in place. To speak about the samples of the caller, the store is the list of all
  list objects, an address is an index into it, and a batch holds the addresses of its
  token lists. \<open>[cls] + t + [sep]\<close> and a slice make a new object; \<open>+=\<close> updates one.
\<close>

type_synonym addr = nat
type_synonym heap = "int list list"

definition alloc :: "int list \<Rightarrow> heap \<Rightarrow> addr \<times> heap" where
  "alloc v h = (length h, h @ [v])"

definition pad_st :: "collator \<Rightarrow> addr \<Rightarrow> heap \<Rightarrow> addr \<times> heap" where
  "pad_st c sample h =
     (let diff = max_len c - int (length (h ! sample))
      in if diff > 0
         then (sample, h[sample := h ! sample @ replicate (nat diff) (pad_idx c)])
         else alloc (slice_from (- max_len c) (h ! sample)) h)"

fun rows_st :: "collator \<Rightarrow> addr list \<Rightarrow> heap \<Rightarrow> addr list \<times> heap" where
  "rows_st c [] h = ([], h)"
| "rows_st c (t # ts) h =
     (let (s, h1) = alloc ([cls_idx c] @ h ! t @ [sep_idx c]) h;
          (r, h2) = pad_st c s h1;
          (rs, h3) = rows_st c ts h2
      in (r # rs, h3))"

definition call_st ::
  "collator \<Rightarrow> (addr \<times> int) list \<Rightarrow> heap \<Rightarrow>
     (error + (int list list \<times> int list list \<times> int list)) \<times> heap" where
  "call_st c batch h =
     (if batch = [] then (Inl UnpackError, h)
      else
        (let tokens = map fst batch;
             label = map snd batch;
             max_len' = batch_max_len c (map (\<lambda>t. h ! t) tokens);
             (rows, h') = rows_st c tokens h
         in (to_tensors c (map (\<lambda>r. h' ! r) rows) label, h')))"

section \<open>The training loop\<close>

text \<open>
  \<open>train\<close> drives collaborators that are not part of the file: the data loaders, the
  model, the metrics of scikit-learn, the optimizer and the writers. What they return is
  an input of the model below; what \<open>train\<close> asks them to do is recorded in a trace.
  Losses and metrics are Python floats. The arithmetic on the running sums is modelled
  on the reals; the validation loss, which is only compared, keeps the special values
  of a float.
\<close>

datatype pyfloat = Fin real | PInf | NInf | NaN

text \<open>Python's \<open><\<close> on floats: every comparison with NaN is false.\<close>

fun fl_lt :: "pyfloat \<Rightarrow> pyfloat \<Rightarrow> bool" where
  "fl_lt NaN y = False"
| "fl_lt x NaN = False"
| "fl_lt (Fin a) (Fin b) = (a < b)"
| "fl_lt x NInf = False"
| "fl_lt NInf y = True"
| "fl_lt PInf y = False"
| "fl_lt x PInf = True"

text \<open>Python's \<open><=\<close> on floats.\<close>

fun fl_le :: "pyfloat \<Rightarrow> pyfloat \<Rightarrow> bool" where
  "fl_le NaN y = False"
| "fl_le x NaN = False"
| "fl_le (Fin a) (Fin b) = (a \<le> b)"
| "fl_le NInf y = True"
| "fl_le x PInf = True"
| "fl_le x NInf = False"
| "fl_le PInf y = False"

text \<open>
  The class names of lines 71 and 73, in the order of the source: seven emotions
  (gongpo, nollam, bunno, seulpeum, jungnip, haengbok, hyeomo) or two polarities
  (geungjeong, bujeong).
\<close>

datatype label =
  Fear | Surprise | Anger | Sadness | Neutral | Happiness | Disgust | Positive | Negative

text \<open>Lines 70-73: an \<open>if\<close>/\<open>elif\<close> without \<open>else\<close>; \<open>None\<close> is "not assigned".\<close>

definition label_list_of :: "string \<Rightarrow> label list option" where
  "label_list_of num_label =
     (if num_label = ''multi''
      then Some [Fear, Surprise, Anger, Sadness, Neutral, Happiness, Disgust]
      else if num_label = ''binary'' then Some [Positive, Negative]
      else None)"

record args =
  num_label :: string
  epochs :: int
  gradient_accumulation_steps :: int
  logging_step :: int

text \<open>
  The collaborators: the number of batches of the training loader, what the model and
  the classification report give for the micro-batch \<open>step\<close> of an epoch (loss, accuracy,
  macro F1), and what \<open>evaluate\<close> returns after an epoch (loss, accuracy, macro F1).
\<close>

record collab =
  tr_loader_len :: nat
  model_out :: "nat \<Rightarrow> nat \<Rightarrow> real \<times> real \<times> real"
  evaluate :: "nat \<Rightarrow> pyfloat \<times> real \<times> real"

datatype event =
    Backward                     \<comment> \<open>\<open>loss.backward()\<close>, lines 196-200\<close>
  | Log int real real real       \<comment> \<open>\<open>logger.info\<close> of line 211: step label, loss, acc, f1\<close>
  | OptimizerStep                \<comment> \<open>clip, \<open>scheduler.step\<close>, \<open>optimizer.step\<close>, \<open>zero_grad\<close>\<close>
  | Evaluated pyfloat real real  \<comment> \<open>the validation results logged at lines 245-254\<close>
  | SaveModel                    \<comment> \<open>\<open>torch.save(model.state_dict(), ...)\<close>, line 258\<close>
  | SaveArgs                     \<comment> \<open>\<open>torch.save(args, ...)\<close>, line 260\<close>
  | ResultRow pyfloat real       \<comment> \<open>\<open>result_writer.update\<close>, line 272\<close>

text \<open>The locals of \<open>train\<close>; \<open>None\<close> is a local that has not been assigned yet.\<close>

record train_state =
  global_step :: int
  train_loss :: real
  train_acc :: real
  train_f1 :: real
  logging_loss :: real
  logging_acc :: real
  logging_f1 :: real
  best_val_loss :: pyfloat
  best_val_acc :: "real option"
  step :: "nat option"
  trace :: "event list"

text \<open>Lines 207-214: the block run when the logging condition holds.\<close>

definition log_metrics :: "args \<Rightarrow> train_state \<Rightarrow> train_state" where
  "log_metrics a s =
     (let la = (train_acc s - logging_acc s) / real_of_int (logging_step a);
          lf = (train_f1 s - logging_f1 s) / real_of_int (logging_step a);
          ll = (train_loss s - logging_loss s) / real_of_int (logging_step a)
      in s\<lparr>trace := trace s @ [Log (global_step s + 1) ll la lf],
            logging_acc := train_acc s,
            logging_f1 := train_f1 s,
            logging_loss := train_loss s\<rparr>)"

text \<open>
  One pass of the inner loop (lines 167-233) for the micro-batch \<open>i\<close> with the outcome
  \<open>out\<close>. The logging test of line 206 stands beside, not inside, the test of line 222
  that gates the optimizer update; \<open>%\<close> by zero raises.
\<close>

definition micro_batch ::
  "args \<Rightarrow> train_state \<Rightarrow> nat \<Rightarrow> real \<times> real \<times> real \<Rightarrow>
     (error \<times> event list) + train_state" where
  "micro_batch a s i out =
     (let grad_accu = gradient_accumulation_steps a;
          (loss, batch_acc, batch_macro_f1) = out;
          loss = (if grad_accu > 1 then loss / real_of_int grad_accu else loss);
          batch_acc = (if grad_accu > 1 then batch_acc / real_of_int grad_accu else batch_acc);
          batch_macro_f1 =
            (if grad_accu > 1 then batch_macro_f1 / real_of_int grad_accu else batch_macro_f1);
          s1 = s\<lparr>step := Some i,
                 trace := trace s @ [Backward],
                 train_loss := train_loss s + loss,
                 train_acc := train_acc s + batch_acc,
                 train_f1 := train_f1 s + batch_macro_f1\<rparr>
      in if logging_step a = 0 then Inl (ZeroDivisionError, trace s1)
         else
           (let s2 = (if (global_step s1 + 1) mod logging_step a = 0
                      then log_metrics a s1 else s1)
            in if grad_accu = 0 then Inl (ZeroDivisionError, trace s2)
               else if (int i + 1) mod grad_accu = 0
               then Inr (s2\<lparr>trace := trace s2 @ [OptimizerStep],
                            global_step := global_step s2 + 1\<rparr>)
               else Inr s2))"

text \<open>The inner \<open>for step, batch in enumerate(tr_loader)\<close>.\<close>

fun steps_loop ::
  "args \<Rightarrow> (nat \<Rightarrow> real \<times> real \<times> real) \<Rightarrow> nat list \<Rightarrow> train_state \<Rightarrow>
     (error \<times> event list) + train_state" where
  "steps_loop a f [] s = Inr s"
| "steps_loop a f (i # is) s =
     (case micro_batch a s i (f i) of
        Inl x \<Rightarrow> Inl x
      | Inr s' \<Rightarrow> steps_loop a f is s')"

text \<open>
  One epoch (lines 164-265): the sums are reset, the micro-batches run, the sums are
  divided by \<open>step + 1\<close> (a name error when the loader gave no batch), the validation
  runs, and the checkpoint is written when its loss is below the best one.
\<close>

definition epoch_body ::
  "args \<Rightarrow> collab \<Rightarrow> train_state \<Rightarrow> nat \<Rightarrow> (error \<times> event list) + train_state" where
  "epoch_body a w s e =
     (let s0 = s\<lparr>train_loss := 0, train_acc := 0, train_f1 := 0,
                 logging_loss := 0, logging_acc := 0, logging_f1 := 0\<rparr>
      in (case steps_loop a (model_out w e) [0..<tr_loader_len w] s0 of
            Inl x \<Rightarrow> Inl x
          | Inr s1 \<Rightarrow>
              (case step s1 of
                 None \<Rightarrow> Inl (NameError ''step'', trace s1)
               | Some n \<Rightarrow>
                   (let s2 = s1\<lparr>train_loss := train_loss s1 / real (n + 1),
                                train_acc := train_acc s1 / real (n + 1),
                                train_f1 := train_f1 s1 / real (n + 1)\<rparr>;
                        (val_loss, val_acc, val_macro_f1) = evaluate w e;
                        s3 = s2\<lparr>trace := trace s2 @ [Evaluated val_loss val_acc val_macro_f1]\<rparr>;
                        s4 = (if fl_lt val_loss (best_val_loss s3)
                              then s3\<lparr>trace := trace s3 @ [SaveModel, SaveArgs],
                                      best_val_loss := val_loss,
                                      best_val_acc := Some val_acc\<rparr>
                              else s3)
                    in Inr (s4\<lparr>train_loss := 0, train_acc := 0\<rparr>)))))"

text \<open>The outer \<open>for epoch in range(args.epochs)\<close>.\<close>

fun epochs_loop ::
  "args \<Rightarrow> collab \<Rightarrow> nat list \<Rightarrow> train_state \<Rightarrow> (error \<times> event list) + train_state" where
  "epochs_loop a w [] s = Inr s"
| "epochs_loop a w (e # es) s =
     (case epoch_body a w s e of
        Inl x \<Rightarrow> Inl x
      | Inr s' \<Rightarrow> epochs_loop a w es s')"

text \<open>Lines 156-165: the locals before the first epoch.\<close>

definition init_state :: train_state where
  "init_state =
     \<lparr>global_step = 0, train_loss = 0, train_acc = 0, train_f1 = 0,
      logging_loss = 0, logging_acc = 0, logging_f1 = 0,
      best_val_loss = Fin 1000000000, best_val_acc = None, step = None, trace = []\<rparr>"

text \<open>
  \<open>train\<close>: the label list is read at line 74, \<open>t_total\<close> divides by the accumulation
  factor at line 128, the epochs run, and lines 268-272 read \<open>best_val_acc\<close> for the
  row of the results table. An error comes with the trace up to it.
\<close>

definition train :: "args \<Rightarrow> collab \<Rightarrow> (error \<times> event list) + train_state" where
  "train a w =
     (case label_list_of (num_label a) of
        None \<Rightarrow> Inl (NameError ''label_list'', [])
      | Some label_list \<Rightarrow>
          (if gradient_accumulation_steps a = 0 then Inl (ZeroDivisionError, [])
           else
             (case epochs_loop a w [0..<nat (epochs a)] init_state of
                Inl x \<Rightarrow> Inl x
              | Inr s \<Rightarrow>
                  (case best_val_acc s of
                     None \<Rightarrow> Inl (NameError ''best_val_acc'', trace s)
                   | Some acc \<Rightarrow>
                       Inr (s\<lparr>trace := trace s @ [ResultRow (best_val_loss s) acc]\<rparr>)))))"

text \<open>Kinds of events, to speak about a trace.\<close>

fun is_step_event :: "event \<Rightarrow> bool" where
  "is_step_event Backward = True"
| "is_step_event (Log g l a f) = True"
| "is_step_event OptimizerStep = True"
| "is_step_event ev = False"

fun is_checkpoint :: "event \<Rightarrow> bool" where
  "is_checkpoint SaveModel = True"
| "is_checkpoint SaveArgs = True"
| "is_checkpoint ev = False"

fun is_row :: "event \<Rightarrow> bool" where
  "is_row (ResultRow l a) = True"
| "is_row ev = False"

fun is_log :: "event \<Rightarrow> bool" where
  "is_log (Log g l a f) = True"
| "is_log ev = False"

section \<open>Properties of the collator\<close>

text \<open>
  What the code does in general: with a positive configured length every row has that
  length, a sample at least that long is cut to its last entries, and the mask is the
  pad id where the token is the pad id and 1 elsewhere.
\<close>

lemma pad_length: "0 < max_len c \<Longrightarrow> length (pad c s) = nat (max_len c)"
  by (auto simp: pad_def slice_from_def Let_def)

lemma pad_keeps_tail:
  assumes "0 < max_len c" and "max_len c \<le> int (length s)"
  shows "pad c s = drop (length s - nat (max_len c)) s"
proof -
  have "nat (int (length s) - max_len c) = length s - nat (max_len c)"
    using assms by linarith
  then show ?thesis using assms by (simp add: pad_def slice_from_def Let_def)
qed

lemma masked_fill_ones:
  "masked_fill (ones_like t) (eq_scalar t v) v = map (map (\<lambda>x. if x = v then v else 1)) t"
proof -
  have row: "map2 (\<lambda>x b. if b then v else x) (map (\<lambda>_. 1) r) (map (\<lambda>x. x = v) r)
             = map (\<lambda>x. if x = v then v else 1) r" for r :: "int list"
    by (induction r) auto
  show ?thesis
    unfolding masked_fill_def ones_like_def eq_scalar_def
    by (induction t) (auto simp: row)
qed

lemma call_mask:
  assumes "call c batch = Inr (t, m, l)"
  shows "m = map (map (\<lambda>x. if x = pad_idx c then pad_idx c else 1)) t"
  using assms
  by (auto simp: call_def to_tensors_def Let_def masked_fill_ones split: if_splits sum.splits)

lemma tensor2_Inr: "tensor2 rows = Inr t \<Longrightarrow> t = rows"
  by (auto simp: tensor2_def split: list.splits if_splits)

lemma call_width:
  assumes "0 < max_len c" and "call c batch = Inr (t, m, l)"
  shows "list_all (\<lambda>r. length r = nat (max_len c)) t"
proof -
  from assms(2) have "tensor2 (map (\<lambda>t. pad c ([cls_idx c] @ t @ [sep_idx c])) (map fst batch)) = Inr t"
    by (auto simp: call_def to_tensors_def Let_def split: if_splits sum.splits)
  then have "t = map (\<lambda>t. pad c ([cls_idx c] @ t @ [sep_idx c])) (map fst batch)"
    by (rule tensor2_Inr)
  then show ?thesis using assms(1) by (simp add: list_all_iff pad_length)
qed

text \<open>
  Claim C6: for the batch of \<open>[5, 6, 7]\<close> with label 0 and \<open>[8, 9]\<close> with label 1,
  the pad id 0, the boundary ids 1 and 2 and the configured length 6, the collator gives
  the tokens \<open>[[1,5,6,7,2,0],[1,8,9,2,0,0]]\<close>, the masks
  \<open>[[1,1,1,1,1,0],[1,1,1,1,0,0]]\<close> and the labels \<open>[0,1]\<close>.
\<close>

theorem scenario_collation:
  "call (ClassificationBatchFunction 6 0 (Some 1) (Some 2)) [([5, 6, 7], 0), ([8, 9], 1)] =
     Inr ([[1, 5, 6, 7, 2, 0], [1, 8, 9, 2, 0, 0]],
          [[1, 1, 1, 1, 1, 0], [1, 1, 1, 1, 0, 0]],
          [0, 1])"
  by code_simp

text \<open>
  Claim C1 says that the collator pads to the length of the batch, the smaller of the
  configured length and the longest raw sequence, so that the second dimension of the
  token matrix is that length. The code computes this length at line 42 and does not use
  it: for the batch of \<open>[7, 8]\<close> and \<open>[9]\<close> with the configured length 8 the length
  of the batch is 2, and the rows of the token matrix have 8 entries.
\<close>

theorem width_is_configured_length:
  "batch_max_len (ClassificationBatchFunction 8 0 (Some 1) (Some 2)) [[7, 8], [9]] = 2 \<and>
   call (ClassificationBatchFunction 8 0 (Some 1) (Some 2)) [([7, 8], 1), ([9], 0)] =
     Inr ([[1, 7, 8, 2, 0, 0, 0, 0], [1, 9, 2, 0, 0, 0, 0, 0]],
          [[1, 1, 1, 1, 0, 0, 0, 0], [1, 1, 1, 0, 0, 0, 0, 0]],
          [1, 0])"
  by code_simp

text \<open>
  Claim C2 says that the mask is 1 where the token differs from the pad id and 0 where
  it equals the pad id, whatever the pad id is. Line 46 fills the ones with the pad id
  itself: with the pad id 1 the row \<open>[2, 5, 3, 1]\<close>, whose last entry is padding, gets
  the mask \<open>[1, 1, 1, 1]\<close>.
\<close>

theorem mask_holds_pad_id:
  "call (ClassificationBatchFunction 4 1 (Some 2) (Some 3)) [([5], 0)] =
     Inr ([[2, 5, 3, 1]], [[1, 1, 1, 1]], [0])"
  by code_simp

text \<open>
  Claim C7 says that a sequence which, with its two boundary markers, is longer than the
  length of the batch is cut to its last entries, has exactly that length, and ends with
  the closing marker. For the batch of \<open>[4, 5, 6, 7]\<close> and \<open>[8]\<close> with the
  configured length 7 the length of the batch is 4 and the first sequence has 6 entries
  with its markers; its row is not cut, has 7 entries and ends with the pad id 0.
\<close>

theorem long_row_not_cut_to_batch_length:
  "batch_max_len (ClassificationBatchFunction 7 0 (Some 1) (Some 2)) [[4, 5, 6, 7], [8]] = 4 \<and>
   length ([1] @ [4, 5, 6, 7] @ [2 :: int]) = 6 \<and>
   call (ClassificationBatchFunction 7 0 (Some 1) (Some 2)) [([4, 5, 6, 7], 1), ([8], 0)] =
     Inr ([[1, 4, 5, 6, 7, 2, 0], [1, 8, 2, 0, 0, 0, 0]],
          [[1, 1, 1, 1, 1, 1, 0], [1, 1, 1, 0, 0, 0, 0]],
          [1, 0])"
  by code_simp

subsection \<open>The collator and the store\<close>

lemma pad_st_spec:
  assumes "pad_st c a h = (r, h')" and "a < length h"
  shows "length h \<le> length h'" and "r < length h'" and "h' ! r = pad c (h ! a)"
    and "\<And>b. b < length h \<Longrightarrow> b \<noteq> a \<Longrightarrow> h' ! b = h ! b"
  using assms
  by (auto simp: pad_st_def pad_def alloc_def Let_def nth_append split: if_splits)

lemma rows_st_spec:
  assumes "rows_st c ts h = (rs, h')" and "list_all (\<lambda>t. t < length h) ts"
  shows "length h \<le> length h' \<and> (\<forall>b < length h. h' ! b = h ! b) \<and>
         map (\<lambda>r. h' ! r) rs = map (\<lambda>t. pad c ([cls_idx c] @ h ! t @ [sep_idx c])) ts"
  using assms
proof (induction ts arbitrary: h rs h')
  case Nil
  then show ?case by simp
next
  case (Cons t ts)
  define h1 where "h1 = h @ [[cls_idx c] @ h ! t @ [sep_idx c]]"
  obtain r h2 where p: "pad_st c (length h) h1 = (r, h2)" by (cases "pad_st c (length h) h1")
  obtain rs' h3 where q: "rows_st c ts h2 = (rs', h3)" by (cases "rows_st c ts h2")
  from Cons.prems(1) p q have res: "rs = r # rs'" "h' = h3"
    by (simp_all add: alloc_def h1_def)
  have a: "length h < length h1" by (simp add: h1_def)
  note ps = pad_st_spec [OF p a]
  have len2: "length h < length h2" using a ps(1) by linarith
  have keep2: "h2 ! b = h ! b" if "b < length h" for b
    using ps(4) [of b] that by (simp add: h1_def nth_append)
  have row: "h2 ! r = pad c ([cls_idx c] @ h ! t @ [sep_idx c])"
    using ps(3) by (simp add: h1_def)
  have ts2: "list_all (\<lambda>t. t < length h2) ts"
    using Cons.prems(2) len2 by (auto simp: list_all_iff)
  from Cons.IH [OF q ts2]
  have ih: "length h2 \<le> length h3" "\<forall>b < length h2. h3 ! b = h2 ! b"
    "map (\<lambda>r. h3 ! r) rs' = map (\<lambda>t. pad c ([cls_idx c] @ h2 ! t @ [sep_idx c])) ts"
    by simp_all
  have t_in: "t < length h" using Cons.prems(2) by simp
  have "map (\<lambda>t. pad c ([cls_idx c] @ h2 ! t @ [sep_idx c])) ts
      = map (\<lambda>t. pad c ([cls_idx c] @ h ! t @ [sep_idx c])) ts"
    using Cons.prems(2) keep2 by (auto simp: list_all_iff)
  moreover have "h3 ! r = h2 ! r" using ih(2) ps(2) by simp
  moreover have "\<forall>b < length h. h3 ! b = h ! b" using ih(2) keep2 len2 by auto
  moreover have "length h \<le> length h3" using len2 ih(1) by linarith
  ultimately show ?case using res row ih(3) by simp
qed

lemma call_st_refines:
  assumes "list_all (\<lambda>t. t < length h) (map fst batch)"
  shows "fst (call_st c batch h) = call c (map (\<lambda>(t, l). (h ! t, l)) batch)"
    and "length h \<le> length (snd (call_st c batch h))"
    and "\<forall>b < length h. snd (call_st c batch h) ! b = h ! b"
proof -
  obtain rs h' where r: "rows_st c (map fst batch) h = (rs, h')"
    by (cases "rows_st c (map fst batch) h")
  note sp = rows_st_spec [OF r assms]
  show "fst (call_st c batch h) = call c (map (\<lambda>(t, l). (h ! t, l)) batch)"
    using r sp by (simp add: call_st_def call_def Let_def comp_def split_beta)
  show "length h \<le> length (snd (call_st c batch h))"
    using r sp by (simp add: call_st_def Let_def)
  show "\<forall>b < length h. snd (call_st c batch h) ! b = h ! b"
    using r sp by (simp add: call_st_def Let_def)
qed

text \<open>
  Claim C8: collating the same batch twice gives the same tokens, masks and labels, and
  the first call leaves the token lists of the batch as they were. The batch holds
  addresses of lists in the store; the second call runs on the store the first call
  left behind.
\<close>

theorem collate_twice:
  assumes "list_all (\<lambda>t. t < length h) (map fst batch)"
  shows "fst (call_st c batch (snd (call_st c batch h))) = fst (call_st c batch h) \<and>
         map (\<lambda>t. snd (call_st c batch h) ! t) (map fst batch) = map (\<lambda>t. h ! t) (map fst batch)"
proof -
  let ?h' = "snd (call_st c batch h)"
  note f = call_st_refines [OF assms, of c]
  have v: "list_all (\<lambda>t. t < length ?h') (map fst batch)"
    using assms f(2) by (auto simp: list_all_iff)
  have same: "map (\<lambda>(t, l). (?h' ! t, l)) batch = map (\<lambda>(t, l). (h ! t, l)) batch"
    using assms f(3) by (auto simp: list_all_iff)
  have "fst (call_st c batch ?h') = call c (map (\<lambda>(t, l). (?h' ! t, l)) batch)"
    by (rule call_st_refines(1) [OF v])
  then have "fst (call_st c batch ?h') = fst (call_st c batch h)"
    using same f(1) by simp
  moreover have "map (\<lambda>t. ?h' ! t) (map fst batch) = map (\<lambda>t. h ! t) (map fst batch)"
    using assms f(3) by (auto simp: list_all_iff)
  ultimately show ?thesis by simp
qed

text \<open>The statement above at a concrete input.\<close>

theorem collate_twice_witness:
  "fst (call_st (ClassificationBatchFunction 3 0 (Some 1) (Some 2)) [(1, 1), (0, 0)]
         (snd (call_st (ClassificationBatchFunction 3 0 (Some 1) (Some 2)) [(1, 1), (0, 0)]
                [[4, 5, 6, 7], [8], [3]]))) =
   Inr ([[1, 8, 2], [6, 7, 2]], [[1, 1, 1], [1, 1, 1]], [1, 0]) \<and>
   map (\<lambda>t. snd (call_st (ClassificationBatchFunction 3 0 (Some 1) (Some 2)) [(1, 1), (0, 0)]
                [[4, 5, 6, 7], [8], [3]]) ! t) (map fst [(1 :: nat, 1 :: int), (0, 0)]) =
   [[8], [4, 5, 6, 7]]"
proof -
  have v: "list_all (\<lambda>t. t < length [[4, 5, 6, 7], [8], [3 :: int]]) (map fst [(1 :: nat, 1 :: int), (0, 0)])"
    by simp
  have r: "fst (call_st (ClassificationBatchFunction 3 0 (Some 1) (Some 2)) [(1, 1), (0, 0)]
                [[4, 5, 6, 7], [8], [3]]) =
           Inr ([[1, 8, 2], [6, 7, 2]], [[1, 1, 1], [1, 1, 1]], [1, 0])"
    by code_simp
  show ?thesis
    using collate_twice [OF v, of "ClassificationBatchFunction 3 0 (Some 1) (Some 2)"] r
    by simp
qed

section \<open>Properties of the training loop\<close>

text \<open>
  Claim C9: for a label selector other than \<open>multi\<close> and \<open>binary\<close> no label list is
  assigned, and \<open>train\<close> fails at line 74 with an empty trace, before any training
  step.
\<close>

theorem unknown_selector_fails:
  assumes "num_label a \<noteq> ''multi''" and "num_label a \<noteq> ''binary''"
  shows "train a w = Inl (NameError ''label_list'', [])"
  using assms by (simp add: train_def label_list_of_def)

text \<open>The statement above at a concrete input.\<close>

theorem unknown_selector_fails_witness:
  "train \<lparr>num_label = ''ternary'', epochs = 3, gradient_accumulation_steps = 1, logging_step = 100\<rparr>
     \<lparr>tr_loader_len = 5, model_out = (\<lambda>e i. (1, 1, 1)), evaluate = (\<lambda>e. (Fin 1, 1, 1))\<rparr>
   = Inl (NameError ''label_list'', [])"
  by (rule unknown_selector_fails) simp_all

text \<open>
  Claim C3 is the scenario of four micro-batches of loss \<open>L\<close> under the accumulation
  factor 2: two optimizer updates, each after two backward passes, every contribution
  halved, and a logged loss of \<open>L\<close> per global step. With \<open>L = 1\<close> and a logging step
  of 1 the run makes the two updates after two backward passes each, and it logs four
  times, once per micro-batch, the loss \<open>1 / 2\<close>.
\<close>

theorem accumulation_scenario_logs:
  "train \<lparr>num_label = ''binary'', epochs = 1, gradient_accumulation_steps = 2, logging_step = 1\<rparr>
     \<lparr>tr_loader_len = 4, model_out = (\<lambda>e i. (1, 1, 1)), evaluate = (\<lambda>e. (Fin (1 / 2), 1, 1))\<rparr> =
   Inr \<lparr>global_step = 2, train_loss = 0, train_acc = 0, train_f1 = 1 / 2,
        logging_loss = 2, logging_acc = 2, logging_f1 = 2,
        best_val_loss = Fin (1 / 2), best_val_acc = Some 1, step = Some 3,
        trace =
          [Backward, Log 1 (1 / 2) (1 / 2) (1 / 2),
           Backward, Log 1 (1 / 2) (1 / 2) (1 / 2), OptimizerStep,
           Backward, Log 2 (1 / 2) (1 / 2) (1 / 2),
           Backward, Log 2 (1 / 2) (1 / 2) (1 / 2), OptimizerStep,
           Evaluated (Fin (1 / 2)) 1 1, SaveModel, SaveArgs, ResultRow (Fin (1 / 2)) 1]\<rparr>"
  by code_simp

text \<open>
  Claim C4 says that the metrics are logged once every \<open>logging_step\<close> optimizer
  updates, never twice for one global step, also under accumulation. With the factor 3
  and a logging step of 2, six micro-batches make two updates and three logs, all three
  for the global step 2, since the test of line 206 is passed by every micro-batch
  until the counter moves.
\<close>

theorem log_fires_per_micro_batch:
  "train \<lparr>num_label = ''binary'', epochs = 1, gradient_accumulation_steps = 3, logging_step = 2\<rparr>
     \<lparr>tr_loader_len = 6, model_out = (\<lambda>e i. (1, 1, 1)), evaluate = (\<lambda>e. (Fin (1 / 2), 1, 1))\<rparr> =
   Inr \<lparr>global_step = 2, train_loss = 0, train_acc = 0, train_f1 = 1 / 3,
        logging_loss = 2, logging_acc = 2, logging_f1 = 2,
        best_val_loss = Fin (1 / 2), best_val_acc = Some 1, step = Some 5,
        trace =
          [Backward, Backward, Backward, OptimizerStep,
           Backward, Log 2 (2 / 3) (2 / 3) (2 / 3),
           Backward, Log 2 (1 / 6) (1 / 6) (1 / 6),
           Backward, Log 2 (1 / 6) (1 / 6) (1 / 6), OptimizerStep,
           Evaluated (Fin (1 / 2)) 1 1, SaveModel, SaveArgs, ResultRow (Fin (1 / 2)) 1]\<rparr>"
  by code_simp

text \<open>
  The scenario of four micro-batches under the factor 2 with other logging steps: with 2
  the two logs report \<open>3 / 4\<close> and \<open>1 / 4\<close>, with 3 or 4 nothing is logged.
\<close>

lemma accumulation_scenario_other_logging_steps:
  "map (\<lambda>ls. case train \<lparr>num_label = ''binary'', epochs = 1, gradient_accumulation_steps = 2,
                          logging_step = ls\<rparr>
                   \<lparr>tr_loader_len = 4, model_out = (\<lambda>e i. (1, 1, 1)),
                    evaluate = (\<lambda>e. (Fin (1 / 2), 1, 1))\<rparr> of
                 Inl x \<Rightarrow> [] | Inr s \<Rightarrow> filter is_log (trace s)) [2, 3, 4] =
   [[Log 2 (3 / 4) (3 / 4) (3 / 4), Log 2 (1 / 4) (1 / 4) (1 / 4)], [], []]"
  by code_simp

subsection \<open>Epochs and the best checkpoint\<close>

lemma fl_lt_imp_le: "fl_lt x y \<Longrightarrow> fl_le x y"
  by (cases x; cases y) auto

lemma fl_le_refl: "x \<noteq> NaN \<Longrightarrow> fl_le x x"
  by (cases x) auto

lemma fl_lt_not_nan: "fl_lt x y \<Longrightarrow> x \<noteq> NaN"
  by (cases x; cases y) auto

lemma step_events_no_checkpoint: "list_all is_step_event evs \<Longrightarrow> filter is_checkpoint evs = []"
proof (induction evs)
  case Nil
  then show ?case by simp
next
  case (Cons ev evs)
  then show ?case by (cases ev) auto
qed

lemma step_events_no_row: "list_all is_step_event evs \<Longrightarrow> filter is_row evs = []"
proof (induction evs)
  case Nil
  then show ?case by simp
next
  case (Cons ev evs)
  then show ?case by (cases ev) auto
qed

lemma micro_batch_Inr:
  assumes "micro_batch a s i out = Inr s'"
  shows "\<exists>evs. trace s' = trace s @ evs \<and> list_all is_step_event evs"
    and "best_val_loss s' = best_val_loss s"
    and "best_val_acc s' = best_val_acc s"
    and "step s' = Some i"
  using assms
  by (auto simp: micro_batch_def log_metrics_def Let_def split_beta split: if_splits)

lemma micro_batch_ok:
  assumes "gradient_accumulation_steps a \<noteq> 0" and "logging_step a \<noteq> 0"
  shows "\<exists>s'. micro_batch a s i out = Inr s'"
  using assms by (simp add: micro_batch_def Let_def split_beta)

lemma steps_loop_Inr:
  assumes "steps_loop a f ns s = Inr s'"
  shows "(\<exists>evs. trace s' = trace s @ evs \<and> list_all is_step_event evs) \<and>
         best_val_loss s' = best_val_loss s \<and> best_val_acc s' = best_val_acc s \<and>
         step s' = (if ns = [] then step s else Some (last ns))"
  using assms
proof (induction ns arbitrary: s)
  case Nil
  then show ?case by simp
next
  case (Cons n ns)
  then obtain s1 where m: "micro_batch a s n (f n) = Inr s1" and l: "steps_loop a f ns s1 = Inr s'"
    by (auto split: sum.splits)
  from micro_batch_Inr [OF m] obtain e1 where
    e1: "trace s1 = trace s @ e1" "list_all is_step_event e1"
    and b1: "best_val_loss s1 = best_val_loss s" "best_val_acc s1 = best_val_acc s" "step s1 = Some n"
    by blast
  from Cons.IH [OF l] obtain e2 where
    e2: "trace s' = trace s1 @ e2" "list_all is_step_event e2"
    and b2: "best_val_loss s' = best_val_loss s1" "best_val_acc s' = best_val_acc s1"
      "step s' = (if ns = [] then step s1 else Some (last ns))"
    by blast
  have "trace s' = trace s @ (e1 @ e2) \<and> list_all is_step_event (e1 @ e2)"
    using e1 e2 by simp
  then show ?case using b1 b2 by auto
qed

lemma steps_loop_ok:
  assumes "gradient_accumulation_steps a \<noteq> 0" and "logging_step a \<noteq> 0"
  shows "\<exists>s'. steps_loop a f ns s = Inr s'"
proof (induction ns arbitrary: s)
  case Nil
  then show ?case by simp
next
  case (Cons n ns)
  from micro_batch_ok [OF assms] obtain s1 where "micro_batch a s n (f n) = Inr s1" by blast
  then show ?case using Cons.IH [of s1] by simp
qed

lemma epoch_body_Inr:
  assumes "epoch_body a w s e = Inr s'"
  shows "\<exists>evs. trace s' = trace s @ evs \<and> filter is_row evs = [] \<and>
           (if fl_lt (fst (evaluate w e)) (best_val_loss s)
            then filter is_checkpoint evs = [SaveModel, SaveArgs] \<and>
                 best_val_loss s' = fst (evaluate w e) \<and>
                 best_val_acc s' = Some (fst (snd (evaluate w e)))
            else filter is_checkpoint evs = [] \<and>
                 best_val_loss s' = best_val_loss s \<and>
                 best_val_acc s' = best_val_acc s)"
proof -
  let ?s0 = "s\<lparr>train_loss := 0, train_acc := 0, train_f1 := 0,
                 logging_loss := 0, logging_acc := 0, logging_f1 := 0\<rparr>"
  from assms obtain s1 n where
    l: "steps_loop a (model_out w e) [0..<tr_loader_len w] ?s0 = Inr s1" and n: "step s1 = Some n"
    by (auto simp: epoch_body_def Let_def split: sum.splits option.splits)
  from steps_loop_Inr [OF l] obtain e1 where
    e1: "trace s1 = trace s @ e1" "list_all is_step_event e1"
    and b1: "best_val_loss s1 = best_val_loss s" "best_val_acc s1 = best_val_acc s"
    by auto
  note z = step_events_no_checkpoint [OF e1(2)] step_events_no_row [OF e1(2)]
  show ?thesis
  proof (cases "fl_lt (fst (evaluate w e)) (best_val_loss s)")
    case True
    let ?evs = "e1 @ [Evaluated (fst (evaluate w e)) (fst (snd (evaluate w e))) (snd (snd (evaluate w e))),
                  SaveModel, SaveArgs]"
    have "trace s' = trace s @ ?evs" "best_val_loss s' = fst (evaluate w e)"
      "best_val_acc s' = Some (fst (snd (evaluate w e)))"
      using assms l n e1 b1 True by (auto simp add: epoch_body_def Let_def split_beta)
    moreover have "filter is_row ?evs = []" "filter is_checkpoint ?evs = [SaveModel, SaveArgs]"
      using z by simp_all
    ultimately show ?thesis using True by metis
  next
    case False
    let ?evs = "e1 @ [Evaluated (fst (evaluate w e)) (fst (snd (evaluate w e))) (snd (snd (evaluate w e)))]"
    have "trace s' = trace s @ ?evs" "best_val_loss s' = best_val_loss s"
      "best_val_acc s' = best_val_acc s"
      using assms l n e1 b1 False by (auto simp add: epoch_body_def Let_def split_beta)
    moreover have "filter is_row ?evs = []" "filter is_checkpoint ?evs = []"
      using z by simp_all
    ultimately show ?thesis using False by metis
  qed
qed

lemma epoch_body_ok:
  assumes "gradient_accumulation_steps a \<noteq> 0" and "logging_step a \<noteq> 0"
    and "0 < tr_loader_len w"
  shows "\<exists>s'. epoch_body a w s e = Inr s'"
proof -
  let ?s0 = "s\<lparr>train_loss := 0, train_acc := 0, train_f1 := 0,
                 logging_loss := 0, logging_acc := 0, logging_f1 := 0\<rparr>"
  from steps_loop_ok [OF assms(1,2)] obtain s1 where
    l: "steps_loop a (model_out w e) [0..<tr_loader_len w] ?s0 = Inr s1" by blast
  have "[0..<tr_loader_len w] \<noteq> []" using assms(3) by simp
  with steps_loop_Inr [OF l] have "step s1 = Some (last [0..<tr_loader_len w])" by simp
  with l show ?thesis by (simp add: epoch_body_def Let_def split_beta)
qed

lemma epochs_loop_append:
  "epochs_loop a w (xs @ ys) s =
     (case epochs_loop a w xs s of Inl x \<Rightarrow> Inl x | Inr s' \<Rightarrow> epochs_loop a w ys s')"
  by (induction xs arbitrary: s) (auto split: sum.splits)

lemma epochs_loop_not_nan:
  assumes "epochs_loop a w es s = Inr s'" and "best_val_loss s \<noteq> NaN"
  shows "best_val_loss s' \<noteq> NaN"
  using assms
proof (induction es arbitrary: s)
  case Nil
  then show ?case by simp
next
  case (Cons e es)
  then obtain s1 where b: "epoch_body a w s e = Inr s1" and l: "epochs_loop a w es s1 = Inr s'"
    by (auto split: sum.splits)
  from epoch_body_Inr [OF b] have "best_val_loss s1 \<noteq> NaN"
    using Cons.prems(2) fl_lt_not_nan by (auto split: if_splits)
  then show ?case using Cons.IH [OF l] by simp
qed

text \<open>
  Claim C5: in a run, after every epoch the best validation loss is at most what it was
  before the epoch, and the checkpoint (weights and arguments) is written in an epoch if
  and only if the validation loss of that epoch is strictly below the best loss so far;
  in every other epoch nothing is written. Here \<open>s\<close> is the state before epoch \<open>k\<close>,
  \<open>s'\<close> the state after it, and \<open>evs\<close> what the epoch adds to the trace.
\<close>

theorem best_checkpoint_policy:
  assumes run: "epochs_loop a w [0..<nat (epochs a)] init_state = Inr final"
    and k: "k < nat (epochs a)"
  shows "\<exists>s s' evs.
           epochs_loop a w [0..<k] init_state = Inr s \<and>
           epochs_loop a w [0..<Suc k] init_state = Inr s' \<and>
           fl_le (best_val_loss s') (best_val_loss s) \<and>
           trace s' = trace s @ evs \<and>
           (if fl_lt (fst (evaluate w k)) (best_val_loss s)
            then filter is_checkpoint evs = [SaveModel, SaveArgs] \<and>
                 best_val_loss s' = fst (evaluate w k)
            else filter is_checkpoint evs = [] \<and>
                 best_val_loss s' = best_val_loss s)"
proof -
  from k obtain d where d: "nat (epochs a) = Suc k + d"
    using less_iff_Suc_add by auto
  have sp: "[0..<nat (epochs a)] = [0..<Suc k] @ [Suc k..<nat (epochs a)]"
    unfolding d by (rule upt_add_eq_append) simp
  from run obtain s' where s': "epochs_loop a w [0..<Suc k] init_state = Inr s'"
    unfolding sp epochs_loop_append by (auto split: sum.splits)
  then obtain s where s: "epochs_loop a w [0..<k] init_state = Inr s"
    and b: "epoch_body a w s k = Inr s'"
    by (auto simp: epochs_loop_append split: sum.splits)
  have nn: "best_val_loss s \<noteq> NaN"
    using epochs_loop_not_nan [OF s] by (simp add: init_state_def)
  from epoch_body_Inr [OF b] obtain evs where
    e: "trace s' = trace s @ evs"
    and c: "if fl_lt (fst (evaluate w k)) (best_val_loss s)
            then filter is_checkpoint evs = [SaveModel, SaveArgs] \<and>
                 best_val_loss s' = fst (evaluate w k) \<and>
                 best_val_acc s' = Some (fst (snd (evaluate w k)))
            else filter is_checkpoint evs = [] \<and>
                 best_val_loss s' = best_val_loss s \<and>
                 best_val_acc s' = best_val_acc s"
    by blast
  have "fl_le (best_val_loss s') (best_val_loss s)"
    using c nn fl_lt_imp_le fl_le_refl by (auto split: if_splits)
  then show ?thesis using s s' e c by (auto split: if_splits)
qed

text \<open>The statement above at a concrete input.\<close>

theorem best_checkpoint_policy_witness:
  "\<exists>s s' evs.
     epochs_loop \<lparr>num_label = ''binary'', epochs = 2, gradient_accumulation_steps = 1, logging_step = 5\<rparr>
       \<lparr>tr_loader_len = 1, model_out = (\<lambda>e i. (1, 1, 1)),
        evaluate = (\<lambda>e. if e = 0 then (Fin (1 / 2), 1, 1) else (Fin (3 / 4), 1 / 2, 1))\<rparr>
       [0..<1] init_state = Inr s \<and>
     epochs_loop \<lparr>num_label = ''binary'', epochs = 2, gradient_accumulation_steps = 1, logging_step = 5\<rparr>
       \<lparr>tr_loader_len = 1, model_out = (\<lambda>e i. (1, 1, 1)),
        evaluate = (\<lambda>e. if e = 0 then (Fin (1 / 2), 1, 1) else (Fin (3 / 4), 1 / 2, 1))\<rparr>
       [0..<2] init_state = Inr s' \<and>
     fl_le (best_val_loss s') (best_val_loss s) \<and>
     trace s' = trace s @ evs \<and>
     filter is_checkpoint evs = [] \<and> best_val_loss s' = best_val_loss s"
proof -
  let ?a = "\<lparr>num_label = ''binary'', epochs = 2, gradient_accumulation_steps = 1, logging_step = 5\<rparr>"
  let ?w = "\<lparr>tr_loader_len = 1, model_out = (\<lambda>e i. (1 :: real, 1 :: real, 1 :: real)),
        evaluate = (\<lambda>e :: nat. if e = 0 then (Fin (1 / 2), 1 :: real, 1 :: real) else (Fin (3 / 4), 1 / 2, 1))\<rparr>"
  have run: "epochs_loop ?a ?w [0..<nat (epochs ?a)] init_state =
    Inr \<lparr>global_step = 2, train_loss = 0, train_acc = 0, train_f1 = 1,
        logging_loss = 0, logging_acc = 0, logging_f1 = 0,
        best_val_loss = Fin (1 / 2), best_val_acc = Some 1, step = Some 0,
        trace =
          [Backward, OptimizerStep, Evaluated (Fin (1 / 2)) 1 1, SaveModel,
           SaveArgs, Backward, OptimizerStep,
           Evaluated (Fin (3 / 4)) (1 / 2) 1]\<rparr>"
    by code_simp
  have k: "1 < nat (epochs ?a)" by simp
  have s: "epochs_loop ?a ?w [0..<1] init_state =
    Inr \<lparr>global_step = 1, train_loss = 0, train_acc = 0, train_f1 = 1,
        logging_loss = 0, logging_acc = 0, logging_f1 = 0,
        best_val_loss = Fin (1 / 2), best_val_acc = Some 1, step = Some 0,
        trace = [Backward, OptimizerStep, Evaluated (Fin (1 / 2)) 1 1, SaveModel, SaveArgs]\<rparr>"
    by code_simp
  from best_checkpoint_policy [OF run k] s show ?thesis
    by (auto simp: numeral_2_eq_2)
qed

text \<open>Losses that do not improve on the initial best loss of \<open>1e+9\<close>.\<close>

lemma no_improvement_examples:
  "\<not> fl_lt NaN b" and "1000000000 \<le> x \<Longrightarrow> \<not> fl_lt (Fin x) (Fin 1000000000)"
    and "\<not> fl_lt PInf b"
  by (cases b; simp)+

lemma epochs_loop_no_improvement:
  assumes g: "gradient_accumulation_steps a \<noteq> 0" and ls: "logging_step a \<noteq> 0"
    and n: "es = [] \<or> 0 < tr_loader_len w"
    and v: "list_all (\<lambda>e. \<not> fl_lt (fst (evaluate w e)) (best_val_loss s)) es"
    and r: "filter is_row (trace s) = []"
  shows "\<exists>s'. epochs_loop a w es s = Inr s' \<and> best_val_loss s' = best_val_loss s \<and>
           best_val_acc s' = best_val_acc s \<and> filter is_row (trace s') = []"
  using n v r
proof (induction es arbitrary: s)
  case Nil
  then show ?case by simp
next
  case (Cons e es)
  then have pos: "0 < tr_loader_len w" by simp
  from epoch_body_ok [OF g ls pos] obtain s1 where b: "epoch_body a w s e = Inr s1" by blast
  have no: "\<not> fl_lt (fst (evaluate w e)) (best_val_loss s)" using Cons.prems(2) by simp
  from epoch_body_Inr [OF b] no obtain evs where
    e: "trace s1 = trace s @ evs" "filter is_row evs = []"
    and k: "best_val_loss s1 = best_val_loss s" "best_val_acc s1 = best_val_acc s"
    by auto
  have "list_all (\<lambda>e. \<not> fl_lt (fst (evaluate w e)) (best_val_loss s1)) es"
    using Cons.prems(2) k by simp
  moreover have "filter is_row (trace s1) = []" using e Cons.prems(3) by simp
  moreover have "es = [] \<or> 0 < tr_loader_len w" using pos by simp
  ultimately obtain s' where "epochs_loop a w es s1 = Inr s'" "best_val_loss s' = best_val_loss s1"
    "best_val_acc s' = best_val_acc s1" "filter is_row (trace s') = []"
    using Cons.IH [of s1] by blast
  then show ?case using b k by simp
qed

text \<open>
  Claim C10: when no epoch has a validation loss strictly below the initial
  \<open>1e+9\<close> (no epoch at all, or losses that are NaN or at least \<open>1e+9\<close>),
  \<open>best_val_acc\<close> is never assigned and \<open>train\<close> ends with a name error at the
  results record, without a row in the results table. The first four assumptions say
  that the run gets that far.
\<close>

theorem no_improvement_name_error:
  assumes "num_label a = ''multi'' \<or> num_label a = ''binary''"
    and "gradient_accumulation_steps a \<noteq> 0" and "logging_step a \<noteq> 0"
    and "nat (epochs a) = 0 \<or> 0 < tr_loader_len w"
    and "\<forall>e < nat (epochs a). \<not> fl_lt (fst (evaluate w e)) (Fin 1000000000)"
  shows "\<exists>tr. train a w = Inl (NameError ''best_val_acc'', tr) \<and> filter is_row tr = []"
proof -
  have l: "label_list_of (num_label a) \<noteq> None"
    using assms(1) by (auto simp: label_list_of_def)
  have n: "[0..<nat (epochs a)] = [] \<or> 0 < tr_loader_len w" using assms(4) by auto
  have v: "list_all (\<lambda>e. \<not> fl_lt (fst (evaluate w e)) (best_val_loss init_state))
             [0..<nat (epochs a)]"
    using assms(5) by (simp add: list_all_iff init_state_def)
  have r: "filter is_row (trace init_state) = []" by (simp add: init_state_def)
  from epochs_loop_no_improvement [OF assms(2,3) n v r] obtain s where
    "epochs_loop a w [0..<nat (epochs a)] init_state = Inr s" "best_val_acc s = None"
    "filter is_row (trace s) = []"
    by (auto simp: init_state_def)
  then show ?thesis using l assms(2) by (auto simp: train_def)
qed

text \<open>The statement above at a concrete input.\<close>

theorem no_improvement_name_error_witness:
  "\<exists>tr. train \<lparr>num_label = ''binary'', epochs = 2, gradient_accumulation_steps = 1, logging_step = 1\<rparr>
           \<lparr>tr_loader_len = 1, model_out = (\<lambda>e i. (1, 1, 1)),
            evaluate = (\<lambda>e. if e = 0 then (NaN, 0, 0) else (Fin 2000000000, 0, 0))\<rparr>
         = Inl (NameError ''best_val_acc'', tr) \<and> filter is_row tr = []"
  by (rule no_improvement_name_error) (simp_all add: less_Suc_eq numeral_2_eq_2)

end
